theory Spec2Isabelle
  imports Main "HOL-Library.Word"
begin

section \<open>The FHERegisTestnet contract\<close>

text \<open>
  The contract of \<^verbatim>\<open>packages/hardhat/contracts/FHERegisTestnet.sol\<close> keeps two mappings
  and a counter. A Solidity mapping is total: a key never written reads as the zero value
  of its type, so each mapping is a total function. An \<^verbatim>\<open>address\<close> is 160 bits, a
  \<^verbatim>\<open>uint256\<close> is 256 bits, and an \<^verbatim>\<open>euint256\<close> (like an \<^verbatim>\<open>externalEuint256\<close>) is a
  32-byte ciphertext handle.
\<close>

type_synonym address = "160 word"
type_synonym uint256 = "256 word"
type_synonym euint256 = "256 word"
type_synonym externalEuint256 = "256 word"
type_synonym bytes = "8 word list"

text \<open>
  The state that \<^verbatim>\<open>registerEmail\<close> writes: the contract's three storage variables, and
  the persistent permissions that \<^verbatim>\<open>FHE.allow\<close> and \<^verbatim>\<open>FHE.allowThis\<close> record in the
  access-control list of the FHE library (pairs of a handle and an account allowed on it).
\<close>

record chain =
  encryptedEmails :: "address \<Rightarrow> euint256"
  registered :: "address \<Rightarrow> bool"
  totalRegistered :: uint256
  acl :: "(euint256 \<times> address) set"

text \<open>
  A transaction that reverts changes nothing. The contract has no \<^verbatim>\<open>require\<close> of its own;
  it reverts when \<^verbatim>\<open>FHE.fromExternal\<close> rejects the input proof, and when the checked
  addition \<^verbatim>\<open>totalRegistered += 1\<close> of Solidity 0.8 overflows (panic 0x11).
\<close>

datatype revert = InvalidInputProof | ArithmeticOverflow

text \<open>
  \<^verbatim>\<open>FHE.fromExternal\<close> belongs to the imported library \<^verbatim>\<open>@fhevm/solidity\<close>, not to this
  repository. It is a parameter of the model: given the contract's address, the sender,
  the external handle and the proof, it returns the internal handle, or \<open>None\<close> where the
  library reverts.
\<close>

type_synonym verifier = "address \<Rightarrow> address \<Rightarrow> externalEuint256 \<Rightarrow> bytes \<Rightarrow> euint256 option"

definition allow :: "euint256 \<Rightarrow> address \<Rightarrow> chain \<Rightarrow> chain" where
  "allow h account s = s\<lparr>acl := insert (h, account) (acl s)\<rparr>"

definition registerEmail ::
  "verifier \<Rightarrow> address \<Rightarrow> chain \<Rightarrow> address \<Rightarrow> externalEuint256 \<Rightarrow> bytes \<Rightarrow> revert + chain" where
  "registerEmail fromExternal this s sender encryptedEmail zkProof =
     (let firstTime = \<not> registered s sender in
      case fromExternal this sender encryptedEmail zkProof of
        None \<Rightarrow> Inl InvalidInputProof
      | Some storedEmail \<Rightarrow>
          let s1 = s\<lparr>encryptedEmails := (encryptedEmails s)(sender := storedEmail)\<rparr>;
              s2 = s1\<lparr>registered := (registered s1)(sender := True)\<rparr>;
              s3 = allow (encryptedEmails s2 sender) sender s2;
              s4 = allow (encryptedEmails s3 sender) this s3
          in if firstTime
             then (if totalRegistered s4 = - 1 then Inl ArithmeticOverflow
                   else Inr (s4\<lparr>totalRegistered := totalRegistered s4 + 1\<rparr>))
             else Inr s4)"

definition getTotalRegistered :: "chain \<Rightarrow> uint256" where
  "getTotalRegistered s = totalRegistered s"

definition hasRegistered :: "chain \<Rightarrow> address \<Rightarrow> bool" where
  "hasRegistered s user = registered s user"

definition encryptedEmailOf :: "chain \<Rightarrow> address \<Rightarrow> euint256" where
  "encryptedEmailOf s user = encryptedEmails s user"

text \<open>
  The contract declares no constructor, so deployment leaves every storage slot zero.
\<close>

definition deployed :: chain where
  "deployed = \<lparr>encryptedEmails = (\<lambda>_. 0), registered = (\<lambda>_. False),
               totalRegistered = 0, acl = {}\<rparr>"

text \<open>
  A call is a sender with the two arguments of \<^verbatim>\<open>registerEmail\<close>. Executing a call
  gives the new state, or the old one when the transaction reverts; a sequence of calls
  is executed from left to right.
\<close>

datatype call = RegisterEmail (caller: address) (encryptedInput: externalEuint256) (inputProof: bytes)

definition exec :: "verifier \<Rightarrow> address \<Rightarrow> chain \<Rightarrow> call \<Rightarrow> chain" where
  "exec fromExternal this s c =
     (case registerEmail fromExternal this s (caller c) (encryptedInput c) (inputProof c) of
        Inl _ \<Rightarrow> s
      | Inr s' \<Rightarrow> s')"

fun run :: "verifier \<Rightarrow> address \<Rightarrow> chain \<Rightarrow> call list \<Rightarrow> chain" where
  "run fromExternal this s [] = s"
| "run fromExternal this s (c # cs) = run fromExternal this (exec fromExternal this s c) cs"

subsection \<open>Reachable states and decryption\<close>

text \<open>
  The counter agrees with the flags when it is the number of addresses whose flag is set.
\<close>

definition counted :: "chain \<Rightarrow> bool" where
  "counted s = (unat (totalRegistered s) = card {a. registered s a})"

text \<open>
  A call succeeds in a state when the transaction does not revert. The latest submission
  of an address in a sequence of calls is the last of its calls that succeeded.
\<close>

definition succeeds :: "verifier \<Rightarrow> address \<Rightarrow> chain \<Rightarrow> call \<Rightarrow> bool" where
  "succeeds fromExternal this s c =
     (case registerEmail fromExternal this s (caller c) (encryptedInput c) (inputProof c) of
        Inl _ \<Rightarrow> False
      | Inr _ \<Rightarrow> True)"

fun latest :: "verifier \<Rightarrow> address \<Rightarrow> chain \<Rightarrow> call list \<Rightarrow> address \<Rightarrow> call option" where
  "latest fromExternal this s [] a = None"
| "latest fromExternal this s (c # cs) a =
     (case latest fromExternal this (exec fromExternal this s c) cs a of
        Some c' \<Rightarrow> Some c'
      | None \<Rightarrow> if caller c = a \<and> succeeds fromExternal this s c then Some c else None)"

text \<open>
  Modelled from the spec: decryption is the FHE SDK's \<^verbatim>\<open>requestDecryption(handle,
  authorization)\<close>, which this repository only calls (the tests through
  \<^verbatim>\<open>fhevm.userDecryptEuint(type, handle, contractAddress, signer)\<close>). The spec has
  \<^verbatim>\<open>registerEmail\<close> grant decryption permission to the caller and to the contract itself;
  accordingly a user decrypts a handle when both the user and the contract are allowed on
  it. The cleartext behind a handle is held by the FHE co-processor: it is the parameter
  \<open>cleartext\<close>.
\<close>

definition userDecrypt ::
  "(euint256 \<Rightarrow> uint256) \<Rightarrow> chain \<Rightarrow> euint256 \<Rightarrow> address \<Rightarrow> address \<Rightarrow> uint256 option" where
  "userDecrypt cleartext s h contractAddress user =
     (if (h, user) \<in> acl s \<and> (h, contractAddress) \<in> acl s then Some (cleartext h) else None)"

text \<open>
  Modelled from the spec: encryption is the FHE SDK's \<^verbatim>\<open>encrypt(cleartextInteger)\<close>,
  giving a ciphertext and a proof. The cleartext that a call submits is the cleartext
  behind the handle that \<^verbatim>\<open>FHE.fromExternal\<close> makes of the call's ciphertext and proof;
  there is none when the proof is rejected.
\<close>

definition submittedCleartext ::
  "verifier \<Rightarrow> (euint256 \<Rightarrow> uint256) \<Rightarrow> address \<Rightarrow> call \<Rightarrow> uint256 option" where
  "submittedCleartext fromExternal cleartext this c =
     map_option cleartext (fromExternal this (caller c) (encryptedInput c) (inputProof c))"

text \<open>
  A mock FHE layer for concrete runs, in the way the Hardhat tests run against a mock
  FHEVM: any non-empty proof is accepted and the internal handle is the external one.
\<close>

definition mock_fromExternal :: verifier where
  "mock_fromExternal this user h p = (if p = [] then None else Some h)"

section \<open>The registration hook of the front-end\<close>

text \<open>
  The hook \<^verbatim>\<open>useFHERegisTestnetWagmi\<close> holds two pieces of React state, \<^verbatim>\<open>message\<close> and
  \<^verbatim>\<open>isProcessing\<close>, and returns the asynchronous callback \<^verbatim>\<open>registerEmail\<close>. The callback
  is modelled as a function from the values it captures in one render to the sequence of
  effects it performs, in order, and the way its promise settles.
\<close>

record hook =
  message :: string
  isProcessing :: bool

text \<open>
  A JavaScript \<^verbatim>\<open>throw\<close> carries any value. The \<^verbatim>\<open>catch\<close> block reads it through
  \<^verbatim>\<open>e instanceof Error ? e.message : String(e)\<close>: an \<open>Error\<close> carries its message, any
  other value the string \<^verbatim>\<open>String(e)\<close> gives.
\<close>

datatype thrown = Error string | Value string

fun describe :: "thrown \<Rightarrow> string" where
  "describe (Error m) = m"
| "describe (Value v) = v"

datatype 'a outcome = Returns 'a | Throws thrown

datatype effect =
    SetIsProcessing bool
  | SetMessage string
  | Encrypt string int
  | SendTransaction "string list"
  | WaitForReceipt string
  | Refresh

text \<open>
  A computation is the effects it has performed so far together with its outcome. \<open>bind\<close>
  is sequencing (an \<^verbatim>\<open>await\<close> or a semicolon): a throw skips what follows.
\<close>

type_synonym 'a io = "effect list \<times> 'a outcome"

definition pure :: "'a \<Rightarrow> 'a io" where
  "pure x = ([], Returns x)"

definition emit :: "effect \<Rightarrow> unit io" where
  "emit e = ([e], Returns ())"

definition lift :: "'a outcome \<Rightarrow> 'a io" where
  "lift r = ([], r)"

definition perform :: "effect \<Rightarrow> 'a outcome \<Rightarrow> 'a io" where
  "perform e r = ([e], r)"

definition bind :: "'a io \<Rightarrow> ('a \<Rightarrow> 'b io) \<Rightarrow> 'b io" where
  "bind m f =
     (case m of
        (t, Throws e) \<Rightarrow> (t, Throws e)
      | (t, Returns x) \<Rightarrow> (case f x of (t', r) \<Rightarrow> (t @ t', r)))"

definition try_catch :: "'a io \<Rightarrow> (thrown \<Rightarrow> 'a io) \<Rightarrow> 'a io" where
  "try_catch m handler =
     (case m of
        (t, Throws e) \<Rightarrow> (case handler e of (t', r) \<Rightarrow> (t @ t', r))
      | (t, Returns x) \<Rightarrow> (t, Returns x))"

definition try_finally :: "'a io \<Rightarrow> unit io \<Rightarrow> 'a io" where
  "try_finally m finalizer =
     (case m of (t, r) \<Rightarrow>
        (case finalizer of
           (t', Throws e) \<Rightarrow> (t @ t', Throws e)
         | (t', Returns _) \<Rightarrow> (t @ t', r)))"

text \<open>The state the component renders once the effects have been applied.\<close>

fun apply_effect :: "hook \<Rightarrow> effect \<Rightarrow> hook" where
  "apply_effect st (SetIsProcessing b) = st\<lparr>isProcessing := b\<rparr>"
| "apply_effect st (SetMessage m) = st\<lparr>message := m\<rparr>"
| "apply_effect st _ = st"

definition after :: "hook \<Rightarrow> 'a io \<Rightarrow> hook" where
  "after st r = foldl apply_effect st (fst r)"

text \<open>
  What the callback captures. \<^verbatim>\<open>regisAirdrop\<close> is the deployed-contract record (or
  undefined); \<^verbatim>\<open>instance\<close>, \<^verbatim>\<open>ethersSigner\<close> and \<^verbatim>\<open>ethersReadonlyProvider\<close> are only
  tested for being defined. The remaining fields are the calls into the FHE SDK, ethers
  and wagmi, none of which is code of this repository: each is a parameter giving the
  result of the call, or what it throws.
\<close>

record abi_input =
  internalType :: string

record abi_item =
  item_type :: string
  item_name :: string
  item_inputs :: "abi_input list option"

record contract_info =
  info_address :: string
  info_abi :: "abi_item list"

type_synonym encrypted = "bytes list \<times> bytes"

record env =
  regisAirdrop :: "contract_info option"
  fhevmInstance :: bool
  ethersSigner :: bool
  ethersReadonlyProvider :: bool
  getEncryptionMethod :: "string \<Rightarrow> string option outcome"
  encryptWith :: "string \<Rightarrow> int \<Rightarrow> encrypted option outcome"
  buildParamsFromAbi :: "encrypted \<Rightarrow> string list outcome"
  sendRegisterEmail :: "string list \<Rightarrow> string outcome"
  wait :: "string \<Rightarrow> unit outcome"
  refreshMyEmailHandle :: "unit outcome"

definition hasContract :: "env \<Rightarrow> bool" where
  "hasContract env =
     (case regisAirdrop env of None \<Rightarrow> False | Some info \<Rightarrow> info_address info \<noteq> [])"

definition hasSigner :: "env \<Rightarrow> bool" where
  "hasSigner env = ethersSigner env"

datatype mode = Read | Write

definition getContract :: "env \<Rightarrow> mode \<Rightarrow> contract_info option" where
  "getContract env m =
     (if \<not> hasContract env then None
      else let providerOrSigner = (if m = Read then ethersReadonlyProvider env else ethersSigner env)
           in if \<not> providerOrSigner then None else regisAirdrop env)"

definition canRegister :: "env \<Rightarrow> hook \<Rightarrow> bool" where
  "canRegister env st = (hasContract env \<and> fhevmInstance env \<and> hasSigner env \<and> \<not> isProcessing st)"

definition getEncryptionMethodFor :: "env \<Rightarrow> string \<Rightarrow> (string option \<times> string option) outcome" where
  "getEncryptionMethodFor env functionName =
     (case (case regisAirdrop env of
              None \<Rightarrow> None
            | Some info \<Rightarrow>
                find (\<lambda>item. item_type item = ''function'' \<and> item_name item = functionName)
                  (info_abi info)) of
        None \<Rightarrow> Returns (None, Some (''Function ABI not found for '' @ functionName))
      | Some functionAbi \<Rightarrow>
          (case item_inputs functionAbi of
             None \<Rightarrow> Returns (None, Some (''No inputs found for '' @ functionName))
           | Some [] \<Rightarrow> Returns (None, Some (''No inputs found for '' @ functionName))
           | Some (firstInput # _) \<Rightarrow>
               (case getEncryptionMethod env (internalType firstInput) of
                  Throws e \<Rightarrow> Throws e
                | Returns method \<Rightarrow> Returns (method, None))))"

text \<open>
  The body of the \<^verbatim>\<open>try\<close> block. \<^verbatim>\<open>!method\<close> holds of undefined and of the empty string;
  each \<^verbatim>\<open>return setMessage(...)\<close> ends the block normally.
\<close>

definition registerEmail_try :: "env \<Rightarrow> int \<Rightarrow> unit io" where
  "registerEmail_try env emailAsNumber =
     bind (lift (getEncryptionMethodFor env ''registerEmail'')) (\<lambda>(method, error).
       case (case method of None \<Rightarrow> None | Some m \<Rightarrow> if m = [] then None else Some m) of
         None \<Rightarrow>
           emit (SetMessage (case error of None \<Rightarrow> ''Encryption method not found'' | Some m \<Rightarrow> m))
       | Some method \<Rightarrow>
           bind (perform (Encrypt method emailAsNumber) (encryptWith env method emailAsNumber)) (\<lambda>enc.
             case enc of
               None \<Rightarrow> emit (SetMessage ''Encryption failed'')
             | Some enc \<Rightarrow>
                 (case getContract env Write of
                    None \<Rightarrow> emit (SetMessage ''Signer not available'')
                  | Some writeContract \<Rightarrow>
                      bind (lift (buildParamsFromAbi env enc)) (\<lambda>params.
                      bind (perform (SendTransaction params) (sendRegisterEmail env params)) (\<lambda>tx.
                      bind (emit (SetMessage ''Waiting for confirmation...'')) (\<lambda>_.
                      bind (perform (WaitForReceipt tx) (wait env tx)) (\<lambda>_.
                      bind (emit (SetMessage ''Email registration updated!'')) (\<lambda>_.
                      perform Refresh (refreshMyEmailHandle env)))))))))"

definition registerEmail_hook :: "env \<Rightarrow> hook \<Rightarrow> int \<Rightarrow> unit io" where
  "registerEmail_hook env st emailAsNumber =
     (if isProcessing st \<or> \<not> canRegister env st \<or> emailAsNumber \<le> 0 then pure ()
      else
        bind (emit (SetIsProcessing True)) (\<lambda>_.
        bind (emit (SetMessage ''Encrypting and registering email...'')) (\<lambda>_.
        try_finally
          (try_catch (registerEmail_try env emailAsNumber)
             (\<lambda>e. emit (SetMessage (''registerEmail() failed: '' @ describe e))))
          (emit (SetIsProcessing False)))))"

subsection \<open>What the user sees\<close>

text \<open>
  The orchestration is confirmed when every step of it returned a usable value: the
  encryption method was found, the ciphertext was produced, a write contract was there,
  the transaction was sent and mined, and the handle was refetched. Anything else is a
  failure. The failure messages are the five fixed strings of the \<^verbatim>\<open>try\<close> block and
  those that the \<^verbatim>\<open>catch\<close> block builds.
\<close>

definition confirmed :: "env \<Rightarrow> int \<Rightarrow> bool" where
  "confirmed env emailAsNumber =
     (case getEncryptionMethodFor env ''registerEmail'' of
        Returns (Some method, _) \<Rightarrow>
          method \<noteq> [] \<and>
          (case encryptWith env method emailAsNumber of
             Returns (Some enc) \<Rightarrow>
               getContract env Write \<noteq> None \<and>
               (case buildParamsFromAbi env enc of
                  Returns params \<Rightarrow>
                    (case sendRegisterEmail env params of
                       Returns tx \<Rightarrow>
                         wait env tx = Returns () \<and> refreshMyEmailHandle env = Returns ()
                     | Throws _ \<Rightarrow> False)
                | Throws _ \<Rightarrow> False)
           | _ \<Rightarrow> False)
      | _ \<Rightarrow> False)"

definition failure_message :: "string \<Rightarrow> bool" where
  "failure_message m =
     (m \<in> {''Function ABI not found for registerEmail'', ''No inputs found for registerEmail'',
            ''Encryption method not found'', ''Encryption failed'', ''Signer not available''}
      \<or> take 24 m = ''registerEmail() failed: '')"

fun is_Encrypt :: "effect \<Rightarrow> bool" where
  "is_Encrypt (Encrypt _ _) = True"
| "is_Encrypt _ = False"

fun is_SendTransaction :: "effect \<Rightarrow> bool" where
  "is_SendTransaction (SendTransaction _) = True"
| "is_SendTransaction _ = False"



text \<open>
  A connected session on which every external call returns, and the hook state of a
  fresh render, for concrete runs.
\<close>

definition demo_env :: env where
  "demo_env =
     \<lparr>regisAirdrop = Some \<lparr>info_address = ''0xC0'',
        info_abi = [\<lparr>item_type = ''function'', item_name = ''registerEmail'',
                     item_inputs = Some [\<lparr>internalType = ''externalEuint256''\<rparr>,
                                         \<lparr>internalType = ''bytes''\<rparr>]\<rparr>]\<rparr>,
      fhevmInstance = True, ethersSigner = True, ethersReadonlyProvider = True,
      getEncryptionMethod =
        (\<lambda>t. Returns (Some (if t = ''externalEuint256'' then ''add256'' else ''add64''))),
      encryptWith = (\<lambda>m n. Returns (Some ([[1]], [2]))),
      buildParamsFromAbi = (\<lambda>enc. Returns [''0x01'', ''0x02'']),
      sendRegisterEmail = (\<lambda>params. Returns ''0xabc''),
      wait = (\<lambda>tx. Returns ()),
      refreshMyEmailHandle = Returns ()\<rparr>"

definition idle :: hook where
  "idle = \<lparr>message = [], isProcessing = False\<rparr>"

section \<open>One call of registerEmail\<close>

lemma registerEmail_registered:
  assumes "registered s a"
  shows "registerEmail fe this s a e p =
           (case fe this a e p of
              None \<Rightarrow> Inl InvalidInputProof
            | Some h \<Rightarrow> Inr (s\<lparr>encryptedEmails := (encryptedEmails s)(a := h),
                                registered := (registered s)(a := True),
                                acl := insert (h, this) (insert (h, a) (acl s))\<rparr>))"
  using assms by (simp add: registerEmail_def allow_def Let_def split: option.splits)

lemma registerEmail_first:
  assumes "\<not> registered s a"
  shows "registerEmail fe this s a e p =
           (case fe this a e p of
              None \<Rightarrow> Inl InvalidInputProof
            | Some h \<Rightarrow>
                if totalRegistered s = - 1 then Inl ArithmeticOverflow
                else Inr (s\<lparr>encryptedEmails := (encryptedEmails s)(a := h),
                             registered := (registered s)(a := True),
                             acl := insert (h, this) (insert (h, a) (acl s)),
                             totalRegistered := totalRegistered s + 1\<rparr>))"
  using assms by (simp add: registerEmail_def allow_def Let_def split: option.splits)

lemma unat_plus_one:
  fixes t :: "'a::len word"
  assumes "t \<noteq> - 1"
  shows "unat (t + 1) = Suc (unat t)"
proof -
  have "1 + t \<noteq> 0"
    using assms by (metis add_eq_0_iff)
  then show ?thesis
    using unatSuc [of t] by (simp add: add.commute)
qed

lemmas chain_defs =
  exec_def registerEmail_def allow_def deployed_def mock_fromExternal_def
  hasRegistered_def getTotalRegistered_def encryptedEmailOf_def Let_def

text \<open>
  C1. When an address that has already registered calls \<^verbatim>\<open>registerEmail\<close> again with an
  input that \<^verbatim>\<open>FHE.fromExternal\<close> accepts, the call succeeds: it does not revert for
  being a repeat, the counter keeps its value, and the stored handle of the address is
  the handle of the new ciphertext.
\<close>

theorem reregistration_overwrites:
  assumes "hasRegistered s a" and "fe this a e p = Some h"
  shows "\<exists>s'. registerEmail fe this s a e p = Inr s' \<and>
           getTotalRegistered s' = getTotalRegistered s \<and>
           encryptedEmailOf s' a = h \<and> hasRegistered s' a"
  using assms
  by (simp add: registerEmail_registered hasRegistered_def getTotalRegistered_def
      encryptedEmailOf_def)

theorem reregistration_overwrites_witness:
  "hasRegistered (exec mock_fromExternal 192 deployed (RegisterEmail 1 123456789 [1])) 1 \<and>
   mock_fromExternal 192 1 555 [1] = Some 555 \<and>
   (\<exists>s'. registerEmail mock_fromExternal 192
            (exec mock_fromExternal 192 deployed (RegisterEmail 1 123456789 [1])) 1 555 [1] = Inr s' \<and>
         getTotalRegistered s' = 1 \<and> encryptedEmailOf s' 1 = 555 \<and> hasRegistered s' 1)"
proof -
  let ?s = "exec mock_fromExternal 192 deployed (RegisterEmail 1 123456789 [1])"
  have r: "hasRegistered ?s 1"
    by (simp add: chain_defs)
  have v: "mock_fromExternal 192 1 555 [1] = Some 555"
    by (simp add: mock_fromExternal_def)
  have t: "getTotalRegistered ?s = 1"
    by (simp add: chain_defs)
  from reregistration_overwrites [of ?s 1 mock_fromExternal 192 555 "[1]" 555, OF r v] t r v
  show ?thesis
    by simp
qed

text \<open>
  C2. When an address that has not registered calls \<^verbatim>\<open>registerEmail\<close> and the call
  succeeds, \<^verbatim>\<open>hasRegistered\<close> of the address is true afterwards and the value
  of \<^verbatim>\<open>getTotalRegistered\<close>, read as a number, has grown by exactly one.
\<close>

theorem first_registration_counts:
  assumes "\<not> hasRegistered s a" and "registerEmail fe this s a e p = Inr s'"
  shows "hasRegistered s' a \<and>
         unat (getTotalRegistered s') = unat (getTotalRegistered s) + 1"
  using assms
  by (auto simp add: registerEmail_first hasRegistered_def getTotalRegistered_def unat_plus_one
      split: option.splits if_splits)

theorem first_registration_counts_witness:
  "\<not> hasRegistered deployed 1 \<and>
   registerEmail mock_fromExternal 192 deployed 1 123456789 [1] =
     Inr (exec mock_fromExternal 192 deployed (RegisterEmail 1 123456789 [1])) \<and>
   hasRegistered (exec mock_fromExternal 192 deployed (RegisterEmail 1 123456789 [1])) 1 \<and>
   unat (getTotalRegistered (exec mock_fromExternal 192 deployed (RegisterEmail 1 123456789 [1]))) =
     unat (getTotalRegistered deployed) + 1"
proof -
  have n: "\<not> hasRegistered deployed 1"
    by (simp add: chain_defs)
  have r: "registerEmail mock_fromExternal 192 deployed 1 123456789 [1] =
             Inr (exec mock_fromExternal 192 deployed (RegisterEmail 1 123456789 [1]))"
    by (simp add: chain_defs)
  from first_registration_counts [OF n r] n r show ?thesis
    by simp
qed

section \<open>Sequences of calls\<close>

text \<open>
  Executing a call either changes nothing (the transaction reverted) or writes the
  sender's slot of both mappings, adds the two permissions, and adds one to the counter
  when the sender was not registered, which then did not overflow.
\<close>

lemma exec_cases:
  "exec fe this s c = s \<or>
   (\<exists>h. fe this (caller c) (encryptedInput c) (inputProof c) = Some h \<and>
        exec fe this s c =
          s\<lparr>encryptedEmails := (encryptedEmails s)(caller c := h),
            registered := (registered s)(caller c := True),
            acl := insert (h, this) (insert (h, caller c) (acl s)),
            totalRegistered :=
              (if registered s (caller c) then totalRegistered s else totalRegistered s + 1)\<rparr> \<and>
        (\<not> registered s (caller c) \<longrightarrow> totalRegistered s \<noteq> - 1))"
  by (cases "registered s (caller c)")
    (auto simp add: exec_def registerEmail_registered registerEmail_first split: option.splits)

lemma exec_other:
  assumes "caller c \<noteq> b"
  shows "encryptedEmails (exec fe this s c) b = encryptedEmails s b \<and>
         registered (exec fe this s c) b = registered s b"
  using exec_cases [of fe this s c] assms by auto

lemma registered_exec: "registered s a \<Longrightarrow> registered (exec fe this s c) a"
  using exec_cases [of fe this s c] by (auto split: if_splits)

lemma registered_run: "registered s a \<Longrightarrow> registered (run fe this s cs) a"
  by (induction cs arbitrary: s) (simp_all add: registered_exec)

lemma total_exec: "totalRegistered s \<le> totalRegistered (exec fe this s c)"
proof -
  have "totalRegistered s \<le> totalRegistered s + 1" if "totalRegistered s \<noteq> - 1"
    using that by (simp add: word_le_nat_alt unat_plus_one)
  then show ?thesis
    using exec_cases [of fe this s c] by (cases "registered s (caller c)") auto
qed

lemma counted_exec:
  assumes c: "counted s"
  shows "counted (exec fe this s c)"
  using exec_cases [of fe this s c]
proof (elim disjE exE conjE)
  assume "exec fe this s c = s"
  with c show ?thesis by simp
next
  fix h
  assume e: "exec fe this s c =
      s\<lparr>encryptedEmails := (encryptedEmails s)(caller c := h),
        registered := (registered s)(caller c := True),
        acl := insert (h, this) (insert (h, caller c) (acl s)),
        totalRegistered :=
          (if registered s (caller c) then totalRegistered s else totalRegistered s + 1)\<rparr>"
    and o: "\<not> registered s (caller c) \<longrightarrow> totalRegistered s \<noteq> - 1"
  have flags: "{a. ((registered s)(caller c := True)) a} = insert (caller c) {a. registered s a}"
    by auto
  show ?thesis
  proof (cases "registered s (caller c)")
    case True
    then have "insert (caller c) {a. registered s a} = {a. registered s a}"
      by auto
    with c e True flags show ?thesis
      by (simp add: counted_def)
  next
    case False
    then have "card (insert (caller c) {a. registered s a}) = Suc (card {a. registered s a})"
      by simp
    with c e o False flags show ?thesis
      by (simp add: counted_def unat_plus_one)
  qed
qed

lemma counted_run: "counted s \<Longrightarrow> counted (run fe this s cs)"
  by (induction cs arbitrary: s) (simp_all add: counted_exec)

text \<open>
  C3. In every state reached from the deployed contract by a sequence of
  \<^verbatim>\<open>registerEmail\<close> calls, of any senders and with any arguments, reverted or not, the
  counter is the number of distinct addresses whose registered flag is true.
\<close>

theorem counter_counts_registered:
  "unat (getTotalRegistered (run fe this deployed cs)) =
     card {a. hasRegistered (run fe this deployed cs) a}"
proof -
  have "counted deployed"
    by (simp add: counted_def deployed_def)
  then have "counted (run fe this deployed cs)"
    by (rule counted_run)
  then show ?thesis
    by (simp add: counted_def getTotalRegistered_def hasRegistered_def)
qed

lemma run_untouched:
  assumes "a \<notin> caller ` set cs"
  shows "encryptedEmails (run fe this s cs) a = encryptedEmails s a \<and>
         registered (run fe this s cs) a = registered s a"
  using assms by (induction cs arbitrary: s) (auto simp add: exec_other)

text \<open>
  C4. After any sequence of calls from deployment, an address that is the sender of none
  of them has \<^verbatim>\<open>hasRegistered\<close> false and \<^verbatim>\<open>encryptedEmailOf\<close> the zero handle.
\<close>

theorem unregistered_reads_zero:
  assumes "a \<notin> caller ` set cs"
  shows "\<not> hasRegistered (run fe this deployed cs) a \<and>
         encryptedEmailOf (run fe this deployed cs) a = 0"
  using run_untouched [OF assms, of fe this deployed]
  by (simp add: hasRegistered_def encryptedEmailOf_def deployed_def)

theorem unregistered_reads_zero_witness:
  "(2 :: address) \<notin> caller ` set [RegisterEmail 1 123456789 [1], RegisterEmail 1 555 [1]] \<and>
   \<not> hasRegistered
       (run mock_fromExternal 192 deployed [RegisterEmail 1 123456789 [1], RegisterEmail 1 555 [1]]) 2 \<and>
   encryptedEmailOf
       (run mock_fromExternal 192 deployed [RegisterEmail 1 123456789 [1], RegisterEmail 1 555 [1]]) 2 = 0"
proof -
  have n: "(2 :: address) \<notin> caller ` set [RegisterEmail 1 123456789 [1], RegisterEmail 1 555 [1]]"
    by simp
  from unregistered_reads_zero [OF n, of mock_fromExternal 192] n show ?thesis
    by blast
qed

text \<open>
  C5. Across any call, from any state and whether or not the transaction reverts, a
  registered flag that is true stays true and the counter does not decrease.
\<close>

theorem flag_and_counter_monotone:
  "(hasRegistered s a \<longrightarrow> hasRegistered (exec fe this s c) a) \<and>
   getTotalRegistered s \<le> getTotalRegistered (exec fe this s c)"
  by (simp add: hasRegistered_def getTotalRegistered_def registered_exec total_exec)

theorem flag_and_counter_monotone_witness:
  "hasRegistered (exec mock_fromExternal 192 deployed (RegisterEmail 1 123456789 [1])) 1 \<and>
   hasRegistered
     (exec mock_fromExternal 192
        (exec mock_fromExternal 192 deployed (RegisterEmail 1 123456789 [1]))
        (RegisterEmail 2 77 [1])) 1 \<and>
   getTotalRegistered (exec mock_fromExternal 192 deployed (RegisterEmail 1 123456789 [1])) \<le>
   getTotalRegistered
     (exec mock_fromExternal 192
        (exec mock_fromExternal 192 deployed (RegisterEmail 1 123456789 [1]))
        (RegisterEmail 2 77 [1]))"
proof -
  let ?s = "exec mock_fromExternal 192 deployed (RegisterEmail 1 123456789 [1])"
  have r: "hasRegistered ?s 1"
    by (simp add: chain_defs)
  from flag_and_counter_monotone [of ?s 1 mock_fromExternal 192 "RegisterEmail 2 77 [1]"] r
  show ?thesis
    by blast
qed

text \<open>
  C7. A call of \<^verbatim>\<open>registerEmail\<close> by an address leaves the stored handle and the
  registered flag of every other address as they were.
\<close>

theorem registration_frame:
  assumes "a \<noteq> b"
  shows "encryptedEmailOf (exec fe this s (RegisterEmail a e p)) b = encryptedEmailOf s b \<and>
         hasRegistered (exec fe this s (RegisterEmail a e p)) b = hasRegistered s b"
  using exec_other [of "RegisterEmail a e p" b fe this s] assms
  by (simp add: encryptedEmailOf_def hasRegistered_def)

theorem registration_frame_witness:
  "(1 :: address) \<noteq> 2 \<and>
   encryptedEmailOf
     (exec mock_fromExternal 192
        (exec mock_fromExternal 192 deployed (RegisterEmail 2 9999 [1]))
        (RegisterEmail 1 5555 [1])) 2 = 9999 \<and>
   hasRegistered
     (exec mock_fromExternal 192
        (exec mock_fromExternal 192 deployed (RegisterEmail 2 9999 [1]))
        (RegisterEmail 1 5555 [1])) 2"
proof -
  let ?s = "exec mock_fromExternal 192 deployed (RegisterEmail 2 9999 [1])"
  have d: "(1 :: address) \<noteq> 2"
    by simp
  have b: "encryptedEmailOf ?s 2 = 9999" "hasRegistered ?s 2"
    by (simp_all add: chain_defs)
  from registration_frame [OF d, of mock_fromExternal 192 ?s 5555 "[1]"] b d show ?thesis
    by simp
qed

section \<open>Decrypting the stored handle\<close>

lemma acl_exec: "acl s \<subseteq> acl (exec fe this s c)"
  using exec_cases [of fe this s c] by auto

lemma acl_run: "acl s \<subseteq> acl (run fe this s cs)"
proof (induction cs arbitrary: s)
  case Nil
  show ?case by simp
next
  case (Cons c cs)
  have "acl s \<subseteq> acl (exec fe this s c)"
    by (rule acl_exec)
  also have "\<dots> \<subseteq> acl (run fe this (exec fe this s c) cs)"
    by (rule Cons.IH)
  finally show ?case by simp
qed

text \<open>While an address has no successful call, its stored handle stays.\<close>

lemma latest_None:
  assumes "latest fe this s cs a = None"
  shows "encryptedEmails (run fe this s cs) a = encryptedEmails s a"
  using assms
proof (induction cs arbitrary: s)
  case Nil
  show ?case by simp
next
  case (Cons c cs)
  from Cons.prems have n: "latest fe this (exec fe this s c) cs a = None"
    and f: "\<not> (caller c = a \<and> succeeds fe this s c)"
    by (auto split: option.splits if_splits)
  have "encryptedEmails (exec fe this s c) a = encryptedEmails s a"
  proof (cases "caller c = a")
    case True
    with f have "exec fe this s c = s"
      by (simp add: succeeds_def exec_def split: sum.splits)
    then show ?thesis by simp
  next
    case False
    then show ?thesis by (simp add: exec_other)
  qed
  with Cons.IH [OF n] show ?case by simp
qed

text \<open>
  After the latest successful call of an address, its slot holds the handle made of that
  call's input, and the address and the contract are both allowed on that handle.
\<close>

lemma latest_Some:
  assumes "latest fe this s cs a = Some c"
  shows "caller c = a \<and>
         (\<exists>h. fe this a (encryptedInput c) (inputProof c) = Some h \<and>
              encryptedEmails (run fe this s cs) a = h \<and>
              (h, a) \<in> acl (run fe this s cs) \<and> (h, this) \<in> acl (run fe this s cs))"
  using assms
proof (induction cs arbitrary: s)
  case Nil
  then show ?case by simp
next
  case (Cons d cs)
  show ?case
  proof (cases "latest fe this (exec fe this s d) cs a")
    case (Some c')
    with Cons.prems have "c' = c" by simp
    with Some Cons.IH [of "exec fe this s d"] show ?thesis by simp
  next
    case None
    with Cons.prems have d: "d = c" "caller c = a" "succeeds fe this s c"
      by (auto split: if_splits)
    from d(3) obtain s' where
      s': "registerEmail fe this s (caller c) (encryptedInput c) (inputProof c) = Inr s'"
      by (auto simp add: succeeds_def split: sum.splits)
    then have ex: "exec fe this s c = s'"
      by (simp add: exec_def)
    from s' obtain h where h: "fe this a (encryptedInput c) (inputProof c) = Some h"
      "encryptedEmails s' a = h" "(h, a) \<in> acl s'" "(h, this) \<in> acl s'"
      using d(2)
      by (cases "registered s a")
        (auto simp add: registerEmail_registered registerEmail_first
          split: option.splits if_splits)
    have "encryptedEmails (run fe this s' cs) a = h"
      using latest_None [of fe this s' cs a] None d(1) ex h(2) by simp
    moreover have "(h, a) \<in> acl (run fe this s' cs)" "(h, this) \<in> acl (run fe this s' cs)"
      using acl_run [of s' fe this cs] h(3,4) by auto
    ultimately show ?thesis
      using h(1) d ex by simp
  qed
qed

lemma registered_exec_iff:
  "registered (exec fe this s c) a \<longleftrightarrow>
     registered s a \<or> (caller c = a \<and> succeeds fe this s c)"
proof (cases "caller c = a")
  case False
  then show ?thesis by (simp add: exec_other)
next
  case True
  show ?thesis
  proof (cases "registerEmail fe this s (caller c) (encryptedInput c) (inputProof c)")
    case (Inl r)
    then show ?thesis by (simp add: exec_def succeeds_def)
  next
    case (Inr s')
    then have "exec fe this s c = s'" "succeeds fe this s c"
      by (simp_all add: exec_def succeeds_def)
    moreover from Inr have "registered s' (caller c)"
      by (cases "registered s (caller c)")
        (auto simp add: registerEmail_registered registerEmail_first
          split: option.splits if_splits)
    ultimately show ?thesis using True by simp
  qed
qed

text \<open>An address is registered exactly when it was so before or has a successful call.\<close>

lemma registered_run_iff:
  "registered (run fe this s cs) a \<longleftrightarrow> registered s a \<or> latest fe this s cs a \<noteq> None"
  by (induction cs arbitrary: s) (auto simp add: registered_exec_iff split: option.splits)

text \<open>
  C6. After any sequence of calls from deployment, every address that has registered has
  a latest successful call, and decrypting the handle that \<^verbatim>\<open>encryptedEmailOf\<close> returns
  for the address, as that address and for this contract, is permitted and yields the
  cleartext which that latest call submitted. The cleartext behind a handle is the FHE
  layer's, a parameter here: the contract's part is to keep, for each address, the
  handle of its latest input and both permissions on it.
\<close>

theorem decrypt_latest_submission:
  assumes "hasRegistered (run fe this deployed cs) a"
  shows "\<exists>c v. latest fe this deployed cs a = Some c \<and> caller c = a \<and>
           submittedCleartext fe cleartext this c = Some v \<and>
           userDecrypt cleartext (run fe this deployed cs)
             (encryptedEmailOf (run fe this deployed cs) a) this a = Some v"
proof -
  from assms have "latest fe this deployed cs a \<noteq> None"
    by (simp add: hasRegistered_def registered_run_iff) (simp add: deployed_def)
  then obtain c where c: "latest fe this deployed cs a = Some c"
    by auto
  from latest_Some [OF c] obtain h where "caller c = a"
    and "fe this a (encryptedInput c) (inputProof c) = Some h"
    and "encryptedEmails (run fe this deployed cs) a = h"
    and "(h, a) \<in> acl (run fe this deployed cs)" "(h, this) \<in> acl (run fe this deployed cs)"
    by blast
  with c show ?thesis
    by (simp add: submittedCleartext_def userDecrypt_def encryptedEmailOf_def)
qed

theorem decrypt_latest_submission_witness:
  "hasRegistered
     (run mock_fromExternal 192 deployed
        [RegisterEmail 1 123456789 [1], RegisterEmail 2 77 [1], RegisterEmail 1 555 [1]]) 1 \<and>
   latest mock_fromExternal 192 deployed
     [RegisterEmail 1 123456789 [1], RegisterEmail 2 77 [1], RegisterEmail 1 555 [1]] 1 =
     Some (RegisterEmail 1 555 [1]) \<and>
   userDecrypt (\<lambda>h. h)
     (run mock_fromExternal 192 deployed
        [RegisterEmail 1 123456789 [1], RegisterEmail 2 77 [1], RegisterEmail 1 555 [1]])
     (encryptedEmailOf
        (run mock_fromExternal 192 deployed
           [RegisterEmail 1 123456789 [1], RegisterEmail 2 77 [1], RegisterEmail 1 555 [1]]) 1)
     192 1 = Some 555"
proof -
  let ?cs = "[RegisterEmail 1 123456789 [1], RegisterEmail 2 77 [1], RegisterEmail 1 555 [1]]"
  have r: "hasRegistered (run mock_fromExternal 192 deployed ?cs) 1"
    by (simp add: chain_defs)
  have l: "latest mock_fromExternal 192 deployed ?cs 1 = Some (RegisterEmail 1 555 [1])"
    by (simp add: chain_defs succeeds_def)
  have v: "submittedCleartext mock_fromExternal (\<lambda>h. h) 192 (RegisterEmail 1 555 [1]) = Some 555"
    by (simp add: submittedCleartext_def mock_fromExternal_def)
  from decrypt_latest_submission [OF r, of "\<lambda>h. h"] l v r show ?thesis
    by auto
qed

section \<open>The registration hook\<close>

lemma getEncryptionMethodFor_result:
  "(\<exists>e. getEncryptionMethodFor env ''registerEmail'' = Throws e) \<or>
   getEncryptionMethodFor env ''registerEmail'' =
     Returns (None, Some ''Function ABI not found for registerEmail'') \<or>
   getEncryptionMethodFor env ''registerEmail'' =
     Returns (None, Some ''No inputs found for registerEmail'') \<or>
   (\<exists>found_method. getEncryptionMethodFor env ''registerEmail'' = Returns (found_method, None))"
  by (simp add: getEncryptionMethodFor_def split: option.split list.split outcome.split)

lemma getEncryptionMethodFor_cases:
  obtains (throws) e where "getEncryptionMethodFor env ''registerEmail'' = Throws e"
  | (no_abi) "getEncryptionMethodFor env ''registerEmail'' =
                Returns (None, Some ''Function ABI not found for registerEmail'')"
  | (no_inputs) "getEncryptionMethodFor env ''registerEmail'' =
                   Returns (None, Some ''No inputs found for registerEmail'')"
  | (found) found_method where "getEncryptionMethodFor env ''registerEmail'' = Returns (found_method, None)"
  using getEncryptionMethodFor_result [of env] by blast

text \<open>
  Past the guard there is a signer and a contract, so \<^verbatim>\<open>getContract("write")\<close> is defined.
\<close>

lemma getContract_write:
  assumes "canRegister env st"
  shows "getContract env Write = regisAirdrop env \<and> regisAirdrop env \<noteq> None"
  using assms
  by (auto simp add: canRegister_def getContract_def hasContract_def hasSigner_def
      split: option.splits)

lemmas hook_defs =
  registerEmail_hook_def registerEmail_try_def bind_def lift_def emit_def perform_def
  try_catch_def try_finally_def after_def confirmed_def failure_message_def

lemmas demo_defs =
  demo_env_def idle_def canRegister_def hasContract_def hasSigner_def getContract_def
  getEncryptionMethodFor_def

text \<open>
  Past the guard, whatever the external calls do: the promise is fulfilled, the flag is
  down at the end, encryption and the transaction happen at most once, and the last
  message is the success message when every step returned and a failure message
  otherwise.
\<close>

lemma hook_past_guard:
  assumes "\<not> isProcessing st" and "canRegister env st" and "0 < n"
  shows "snd (registerEmail_hook env st n) = Returns () \<and>
         \<not> isProcessing (after st (registerEmail_hook env st n)) \<and>
         length (filter is_Encrypt (fst (registerEmail_hook env st n))) \<le> 1 \<and>
         length (filter is_SendTransaction (fst (registerEmail_hook env st n))) \<le> 1 \<and>
         (if confirmed env n
          then message (after st (registerEmail_hook env st n)) = ''Email registration updated!''
          else failure_message (message (after st (registerEmail_hook env st n))))"
proof -
  note guard = assms
  from getContract_write [OF assms(2)] obtain wc where wc: "getContract env Write = Some wc"
    by auto
  show ?thesis
  proof (cases env rule: getEncryptionMethodFor_cases)
    case (throws e)
    with guard show ?thesis by (simp add: hook_defs)
  next
    case no_abi
    with guard show ?thesis by (simp add: hook_defs)
  next
    case no_inputs
    with guard show ?thesis by (simp add: hook_defs)
  next
    case (found found_method)
    show ?thesis
    proof (cases "found_method = None \<or> found_method = Some []")
      case True
      with guard found show ?thesis by (auto simp add: hook_defs)
    next
      case False
      then obtain m where m: "found_method = Some m" "m \<noteq> []" by auto
      note g = found [unfolded m(1)]
      show ?thesis
      proof (cases "encryptWith env m n")
        case (Throws e)
        with guard g m(2) show ?thesis by (simp add: hook_defs)
      next
        case (Returns eo)
        show ?thesis
        proof (cases eo)
          case None
          with guard g m(2) Returns show ?thesis by (simp add: hook_defs)
        next
          case (Some enc)
          note e = Returns [unfolded Some]
          show ?thesis
          proof (cases "buildParamsFromAbi env enc")
            case (Throws x)
            with guard g m(2) e wc show ?thesis by (simp add: hook_defs)
          next
            case b: (Returns ps)
            show ?thesis
            proof (cases "sendRegisterEmail env ps")
              case (Throws x)
              with guard g m(2) e wc b show ?thesis by (simp add: hook_defs)
            next
              case t: (Returns tx)
              show ?thesis
              proof (cases "wait env tx")
                case (Throws x)
                with guard g m(2) e wc b t show ?thesis by (simp add: hook_defs)
              next
                case w: (Returns u)
                show ?thesis
                proof (cases "refreshMyEmailHandle env")
                  case (Throws x)
                  with guard g m(2) e wc b t w show ?thesis by (simp add: hook_defs)
                next
                  case (Returns u')
                  with guard g m(2) e wc b t w show ?thesis by (simp add: hook_defs)
                qed
              qed
            qed
          qed
        qed
      qed
    qed
  qed
qed

text \<open>
  C8, as the claim states it, fails where the guard stops the call. With no signer
  \<^verbatim>\<open>canRegister\<close> is false, so the call returns at line 137 before any \<^verbatim>\<open>setMessage\<close>:
  the missing signer, which the claim names, is surfaced by no message at all (the
  branch \<^verbatim>\<open>"Signer not available"\<close> is behind the guard, see \<open>getContract_write\<close>).
\<close>

theorem hook_missing_signer_silent:
  "\<not> isProcessing idle \<and> (0 :: int) < 555 \<and>
   \<not> hasSigner (demo_env\<lparr>ethersSigner := False\<rparr>) \<and>
   registerEmail_hook (demo_env\<lparr>ethersSigner := False\<rparr>) idle 555 = ([], Returns ()) \<and>
   message (after idle (registerEmail_hook (demo_env\<lparr>ethersSigner := False\<rparr>) idle 555)) = [] \<and>
   \<not> failure_message
       (message (after idle (registerEmail_hook (demo_env\<lparr>ethersSigner := False\<rparr>) idle 555)))"
  by (simp add: registerEmail_hook_def pure_def after_def failure_message_def demo_defs)

text \<open>
  C8, amended. The promise of the hook's \<^verbatim>\<open>registerEmail\<close> is always fulfilled, never
  rejected. For a call that has passed its guard (not processing; contract, FHE instance
  and signer present; positive input), whatever fails inside it (no encryption method or
  ABI entry, no ciphertext, a throw from the SDK, the transaction or the refetch):
  \<^verbatim>\<open>isProcessing\<close> is false when the call ends; encryption and the transaction are each
  attempted at most once; and the message left on screen is a failure message, unless
  every step returned, in which case it is the success message. Nothing is said of what
  a call shows when the guard stops it.
\<close>

theorem hook_failures_surface:
  "snd (registerEmail_hook env st n) = Returns () \<and>
   (\<not> isProcessing st \<and> canRegister env st \<and> 0 < n \<longrightarrow>
      \<not> isProcessing (after st (registerEmail_hook env st n)) \<and>
      length (filter is_Encrypt (fst (registerEmail_hook env st n))) \<le> 1 \<and>
      length (filter is_SendTransaction (fst (registerEmail_hook env st n))) \<le> 1 \<and>
      (if confirmed env n
       then message (after st (registerEmail_hook env st n)) = ''Email registration updated!''
       else failure_message (message (after st (registerEmail_hook env st n)))))"
proof (cases "\<not> isProcessing st \<and> canRegister env st \<and> 0 < n")
  case True
  then show ?thesis
    using hook_past_guard [of st env n] by blast
next
  case False
  then have "registerEmail_hook env st n = pure ()"
    by (auto simp add: registerEmail_hook_def)
  then have "snd (registerEmail_hook env st n) = Returns ()"
    by (simp add: pure_def)
  with False show ?thesis
    by blast
qed

theorem hook_failures_surface_witness:
  "\<not> isProcessing idle \<and> canRegister demo_env idle \<and> (0 :: int) < 555 \<and>
   confirmed demo_env 555 \<and>
   snd (registerEmail_hook demo_env idle 555) = Returns () \<and>
   \<not> isProcessing (after idle (registerEmail_hook demo_env idle 555)) \<and>
   message (after idle (registerEmail_hook demo_env idle 555)) = ''Email registration updated!'' \<and>
   canRegister (demo_env\<lparr>sendRegisterEmail := \<lambda>_. Throws (Error ''execution reverted'')\<rparr>) idle \<and>
   \<not> confirmed (demo_env\<lparr>sendRegisterEmail := \<lambda>_. Throws (Error ''execution reverted'')\<rparr>) 555 \<and>
   snd (registerEmail_hook
          (demo_env\<lparr>sendRegisterEmail := \<lambda>_. Throws (Error ''execution reverted'')\<rparr>) idle 555) =
     Returns () \<and>
   \<not> isProcessing (after idle (registerEmail_hook
          (demo_env\<lparr>sendRegisterEmail := \<lambda>_. Throws (Error ''execution reverted'')\<rparr>) idle 555)) \<and>
   failure_message (message (after idle (registerEmail_hook
          (demo_env\<lparr>sendRegisterEmail := \<lambda>_. Throws (Error ''execution reverted'')\<rparr>) idle 555)))"
proof -
  let ?bad = "demo_env\<lparr>sendRegisterEmail := \<lambda>_. Throws (Error ''execution reverted'')\<rparr>"
  have i: "\<not> isProcessing idle"
    by (simp add: idle_def)
  have p: "(0 :: int) < 555"
    by simp
  have g: "canRegister demo_env idle"
    by (simp add: demo_defs)
  have c: "confirmed demo_env 555"
    by (simp add: confirmed_def demo_defs)
  have g': "canRegister ?bad idle"
    by (simp add: demo_defs)
  have c': "\<not> confirmed ?bad 555"
    by (simp add: confirmed_def demo_defs)
  from hook_failures_surface [of demo_env idle 555] hook_failures_surface [of ?bad idle 555]
    i p g c g' c'
  show ?thesis
    by simp
qed




text \<open>
  C10. For an input that is zero or negative, a call of the hook's \<^verbatim>\<open>registerEmail\<close>
  returns at once: it performs no effect at all (no encryption, no transaction, no
  message, no change of \<^verbatim>\<open>isProcessing\<close>) and the hook state is as before.
\<close>

theorem hook_nonpositive_noop:
  assumes "emailAsNumber \<le> 0"
  shows "registerEmail_hook env st emailAsNumber = ([], Returns ()) \<and>
         after st (registerEmail_hook env st emailAsNumber) = st"
  using assms by (simp add: registerEmail_hook_def pure_def after_def)

theorem hook_nonpositive_noop_witness:
  "(0 :: int) \<le> 0 \<and> (- 5 :: int) \<le> 0 \<and>
   registerEmail_hook demo_env idle 0 = ([], Returns ()) \<and>
   registerEmail_hook demo_env idle (- 5) = ([], Returns ()) \<and>
   after idle (registerEmail_hook demo_env idle 0) = idle"
proof -
  have z: "(0 :: int) \<le> 0" and m: "(- 5 :: int) \<le> 0"
    by simp_all
  from hook_nonpositive_noop [OF z, of demo_env idle]
    hook_nonpositive_noop [OF m, of demo_env idle] z m show ?thesis
    by blast
qed

end
